theory Spec2Isabelle
  imports Complex_Main
begin

section \<open>JavaScript numbers\<close>

text \<open>
  \<^verbatim>\<open>SVGSkin.js\<close> computes with JavaScript numbers. The model keeps the values that
  decide a branch of the code apart: \<open>NaN\<close> (every comparison with it is false, and
  \<^verbatim>\<open>Math.max\<close>, \<^verbatim>\<open>Math.min\<close>, \<^verbatim>\<open>Math.abs\<close> and the arithmetic operators
  pass it on), the two infinities, and the finite values. A finite value is a rational
  number and the arithmetic on finite values is exact: the rounding of doubles is not
  modelled, and neither is the sign of zero (\<^verbatim>\<open>0 === -0\<close> holds in JavaScript, and the
  code never divides by a zero).
\<close>

datatype jsnum = NaN | NegInf | Fin rat | PosInf

text \<open>\<^verbatim>\<open>a === b\<close> on numbers; \<^verbatim>\<open>a !== b\<close> is its negation.\<close>

fun js_seq :: "jsnum \<Rightarrow> jsnum \<Rightarrow> bool" where
  "js_seq NaN b = False"
| "js_seq a NaN = False"
| "js_seq a b = (a = b)"

text \<open>\<^verbatim>\<open>a < b\<close>.\<close>

fun js_lt :: "jsnum \<Rightarrow> jsnum \<Rightarrow> bool" where
  "js_lt NaN b = False"
| "js_lt a NaN = False"
| "js_lt (Fin a) (Fin b) = (a < b)"
| "js_lt a NegInf = False"
| "js_lt NegInf b = True"
| "js_lt PosInf b = False"
| "js_lt a PosInf = True"

text \<open>\<^verbatim>\<open>a >= b\<close> and \<^verbatim>\<open>a <= b\<close>.\<close>

definition js_ge :: "jsnum \<Rightarrow> jsnum \<Rightarrow> bool" where
  "js_ge a b = (js_lt b a \<or> js_seq a b)"

definition js_le :: "jsnum \<Rightarrow> jsnum \<Rightarrow> bool" where
  "js_le a b = (js_lt a b \<or> js_seq a b)"

text \<open>\<^verbatim>\<open>Math.abs(a)\<close>.\<close>

fun js_abs :: "jsnum \<Rightarrow> jsnum" where
  "js_abs NaN = NaN"
| "js_abs NegInf = PosInf"
| "js_abs PosInf = PosInf"
| "js_abs (Fin a) = Fin \<bar>a\<bar>"

text \<open>\<^verbatim>\<open>Math.max(a, b)\<close> and \<^verbatim>\<open>Math.min(a, b)\<close>: \<open>NaN\<close> as soon as one argument is.\<close>

definition js_max :: "jsnum \<Rightarrow> jsnum \<Rightarrow> jsnum" where
  "js_max a b = (if a = NaN \<or> b = NaN then NaN else if js_lt a b then b else a)"

definition js_min :: "jsnum \<Rightarrow> jsnum \<Rightarrow> jsnum" where
  "js_min a b = (if a = NaN \<or> b = NaN then NaN else if js_lt b a then b else a)"

text \<open>\<^verbatim>\<open>a * b\<close>.\<close>

fun js_mul :: "jsnum \<Rightarrow> jsnum \<Rightarrow> jsnum" where
  "js_mul NaN b = NaN"
| "js_mul a NaN = NaN"
| "js_mul (Fin a) (Fin b) = Fin (a * b)"
| "js_mul (Fin a) PosInf = (if a = 0 then NaN else if 0 < a then PosInf else NegInf)"
| "js_mul (Fin a) NegInf = (if a = 0 then NaN else if 0 < a then NegInf else PosInf)"
| "js_mul PosInf (Fin b) = (if b = 0 then NaN else if 0 < b then PosInf else NegInf)"
| "js_mul NegInf (Fin b) = (if b = 0 then NaN else if 0 < b then NegInf else PosInf)"
| "js_mul PosInf PosInf = PosInf"
| "js_mul NegInf NegInf = PosInf"
| "js_mul PosInf NegInf = NegInf"
| "js_mul NegInf PosInf = NegInf"

text \<open>\<^verbatim>\<open>a / b\<close>; a zero divisor is taken as \<open>+0\<close> (the code divides by \<open>100\<close> only).\<close>

fun js_div :: "jsnum \<Rightarrow> jsnum \<Rightarrow> jsnum" where
  "js_div NaN b = NaN"
| "js_div a NaN = NaN"
| "js_div (Fin a) (Fin b) =
     (if b = 0 then (if a = 0 then NaN else if 0 < a then PosInf else NegInf)
      else Fin (a / b))"
| "js_div (Fin a) b = Fin 0"
| "js_div PosInf (Fin b) = (if 0 \<le> b then PosInf else NegInf)"
| "js_div NegInf (Fin b) = (if 0 \<le> b then NegInf else PosInf)"
| "js_div a b = NaN"

text \<open>\<^verbatim>\<open>a - b\<close>.\<close>

fun js_sub :: "jsnum \<Rightarrow> jsnum \<Rightarrow> jsnum" where
  "js_sub NaN b = NaN"
| "js_sub a NaN = NaN"
| "js_sub (Fin a) (Fin b) = Fin (a - b)"
| "js_sub (Fin a) PosInf = NegInf"
| "js_sub (Fin a) NegInf = PosInf"
| "js_sub PosInf PosInf = NaN"
| "js_sub NegInf NegInf = NaN"
| "js_sub PosInf b = PosInf"
| "js_sub NegInf b = NegInf"

section \<open>The skin and its collaborators\<close>

text \<open>
  The drawing surface of the SVG renderer when a draw finishes: \<^verbatim>\<open>canvas.width\<close> and
  \<^verbatim>\<open>canvas.height\<close> are unsigned integers of the DOM, \<open>pixels\<close> stands for what is drawn.
  \<^verbatim>\<open>context.getImageData(0, 0, canvas.width, canvas.height)\<close> copies the three, and
  throws an \<^verbatim>\<open>IndexSizeError\<close> when the width or the height is zero.
\<close>

record canvas =
  cwidth :: nat
  cheight :: nat
  pixels :: "nat list"

datatype error = InvalidSource | IndexSizeError

text \<open>
  A draw handed to \<^verbatim>\<open>this._svgRenderer._draw(scale, callback)\<close> whose callback has not run
  yet. The closure of \<^verbatim>\<open>setSVG\<close> captures \<^verbatim>\<open>rotationCenter\<close> (\<open>None\<close> is
  \<^verbatim>\<open>undefined\<close>), the closure of \<^verbatim>\<open>getTexture\<close> captures \<^verbatim>\<open>newScale\<close>.
\<close>

datatype callback = LoadDone "(jsnum \<times> jsnum) option" | UpgradeDone jsnum

text \<open>
  The fields of an \<^verbatim>\<open>SVGSkin\<close>, and what its collaborators have received from it:
  \<^item> \<open>texture\<close>: \<^verbatim>\<open>this._texture\<close>, \<open>None\<close> for \<^verbatim>\<open>null\<close>, otherwise the image last
    uploaded into the handle;
  \<^item> \<open>silhouette\<close>: the image last given to \<^verbatim>\<open>this._silhouette.update\<close>;
  \<^item> \<open>baseCalls\<close>: the arguments of every \<^verbatim>\<open>super.setRotationCenter\<close> call, oldest first;
  \<^item> \<open>emitted\<close>: the number of \<^verbatim>\<open>WasAltered\<close> events emitted by \<^verbatim>\<open>setSVG\<close>'s callback;
  \<^item> \<open>pending\<close>: the draws requested from the SVG renderer that have not finished.
\<close>

record skin =
  texture :: "canvas option"
  textureScale :: jsnum
  maxTextureScale :: jsnum
  size :: "jsnum \<times> jsnum"
  viewOffset :: "jsnum \<times> jsnum"
  rawRotationCenter :: "jsnum \<times> jsnum"
  silhouette :: "canvas option"
  baseCalls :: "(jsnum \<times> jsnum) list"
  emitted :: nat
  pending :: "callback list"

definition MAX_TEXTURE_DIMENSION :: nat where
  "MAX_TEXTURE_DIMENSION = 2048"

text \<open>The constructor (lines 16 to 51 of \<^verbatim>\<open>SVGSkin.js\<close>).\<close>

definition newSkin :: skin where
  "newSkin =
     \<lparr>texture = None, textureScale = Fin 1, maxTextureScale = Fin 0,
      size = (Fin 0, Fin 0), viewOffset = (Fin 0, Fin 0),
      rawRotationCenter = (NaN, NaN), silhouette = None, baseCalls = [],
      emitted = 0, pending = []\<rparr>"

text \<open>
  Modelled from the spec: the base collaborator's rotation center. \<^verbatim>\<open>Skin.js\<close> is not
  among the sources; by sections 4.2 and 6 of the specification its
  \<^verbatim>\<open>setRotationCenter(viewSpaceX, viewSpaceY)\<close> stores the pair it is given as
  \<open>baseRotationCenter\<close>. \<open>None\<close>: it has not been called.
\<close>

definition baseRotationCenter :: "skin \<Rightarrow> (jsnum \<times> jsnum) option" where
  "baseRotationCenter s = (if baseCalls s = [] then None else Some (last (baseCalls s)))"

subsection \<open>\<^verbatim>\<open>dispose\<close>\<close>

text \<open>Lines 56 to 62. The teardown of the base class touches none of the fields above.\<close>

definition dispose :: "skin \<Rightarrow> skin" where
  "dispose s = (case texture s of Some t \<Rightarrow> s\<lparr>texture := None\<rparr> | None \<Rightarrow> s)"

subsection \<open>\<^verbatim>\<open>setRotationCenter\<close>\<close>

text \<open>Lines 69 to 75; the call of the base class is recorded with its arguments.\<close>

definition setRotationCenter :: "skin \<Rightarrow> jsnum \<Rightarrow> jsnum \<Rightarrow> skin" where
  "setRotationCenter s x y =
     (if \<not> js_seq x (fst (rawRotationCenter s)) \<or> \<not> js_seq y (snd (rawRotationCenter s))
      then s\<lparr>rawRotationCenter := (x, y),
             baseCalls := baseCalls s @
               [(js_sub x (fst (viewOffset s)), js_sub y (snd (viewOffset s)))]\<rparr>
      else s)"

subsection \<open>\<^verbatim>\<open>getTexture\<close>\<close>

text \<open>
  Lines 82 to 107. First the \<^verbatim>\<open>while\<close> loop. It need not end from every state (\<^verbatim>\<open>newScale = 0\<close> below a
  positive maximum is doubled for ever), so not returning is the value \<open>None\<close>.
\<close>

partial_function (option) upgradeLoop :: "jsnum \<Rightarrow> jsnum \<Rightarrow> jsnum \<Rightarrow> jsnum option" where
  "upgradeLoop newScale maxScale requestedScale =
     (if js_lt newScale maxScale \<and> js_ge requestedScale (js_mul (Fin (3 / 2)) newScale)
      then upgradeLoop (js_mul newScale (Fin 2)) maxScale requestedScale
      else Some newScale)"

declare upgradeLoop.simps [code]

definition scaleMaxOf :: "(jsnum \<times> jsnum) option \<Rightarrow> jsnum" where
  "scaleMaxOf scale =
     (case scale of
        Some (sx, sy) \<Rightarrow> js_max (js_abs sx) (js_abs sy)
      | None \<Rightarrow> Fin 100)"

definition requestedScaleOf :: "skin \<Rightarrow> (jsnum \<times> jsnum) option \<Rightarrow> jsnum" where
  "requestedScaleOf s scale = js_min (js_div (scaleMaxOf scale) (Fin 100)) (maxTextureScale s)"

text \<open>The result is the handle returned and the skin afterwards.\<close>

definition getTexture :: "skin \<Rightarrow> (jsnum \<times> jsnum) option \<Rightarrow> (canvas option \<times> skin) option" where
  "getTexture s scale =
     (case upgradeLoop (textureScale s) (maxTextureScale s) (requestedScaleOf s scale) of
        None \<Rightarrow> None
      | Some newScale \<Rightarrow>
          (if \<not> js_seq (textureScale s) newScale
           then Some (texture s,
                  s\<lparr>textureScale := newScale, pending := pending s @ [UpgradeDone newScale]\<rparr>)
           else Some (texture s, s)))"

text \<open>
  The callback of \<^verbatim>\<open>getTexture\<close> (lines 92 to 103), run by the renderer when the draw has finished, with
  the canvas as it is then. \<^verbatim>\<open>gl.texImage2D\<close> with no texture bound changes no texture.
\<close>

definition upgradeDone :: "jsnum \<Rightarrow> canvas \<Rightarrow> skin \<Rightarrow> error option \<times> skin" where
  "upgradeDone newScale c s =
     (if js_seq (textureScale s) newScale
      then (if cwidth c = 0 \<or> cheight c = 0 then (Some IndexSizeError, s)
            else (None, s\<lparr>texture := (case texture s of None \<Rightarrow> None | Some t \<Rightarrow> Some c),
                           silhouette := Some c\<rparr>))
      else (None, s))"

subsection \<open>\<^verbatim>\<open>setSVG\<close>\<close>

text \<open>
  What \<^verbatim>\<open>this._svgRenderer.loadString(svgData)\<close> does is the renderer's business: it
  throws (\<open>Rejected\<close>), or it returns and the renderer then reports a size and a view
  offset.
\<close>

datatype loadResult = Rejected | Loaded "jsnum \<times> jsnum" "jsnum \<times> jsnum"

text \<open>
  Lines 116 to 127: the part of \<^verbatim>\<open>setSVG\<close> that runs before it returns; an exception
  leaves it at once.
\<close>

definition setSVG :: "skin \<Rightarrow> loadResult \<Rightarrow> (jsnum \<times> jsnum) option \<Rightarrow> error option \<times> skin" where
  "setSVG s loaded rotationCenter =
     (case loaded of
        Rejected \<Rightarrow> (Some InvalidSource, s)
      | Loaded sz off \<Rightarrow>
          (None, s\<lparr>size := sz, viewOffset := off, rawRotationCenter := (NaN, NaN),
                   pending := pending s @ [LoadDone rotationCenter]\<rparr>))"

text \<open>
  The \<^verbatim>\<open>for\<close> loop of the callback (lines 155 to 158). \<^verbatim>\<open>testScale\<close> runs through powers of two, which
  doubles hold exactly up to \<open>2 ^ 1023\<close>; the next doubling gives \<^verbatim>\<open>Infinity\<close>, whose
  product with \<^verbatim>\<open>maxDimension\<close> is \<^verbatim>\<open>Infinity\<close> or \<^verbatim>\<open>NaN\<close> and fails the test.
\<close>

partial_function (option) maxScaleLoop :: "nat \<Rightarrow> nat \<Rightarrow> jsnum \<Rightarrow> jsnum option" where
  "maxScaleLoop maxDimension testScale maxScale =
     (if testScale < 2 ^ 1024 \<and> maxDimension * testScale \<le> MAX_TEXTURE_DIMENSION
      then maxScaleLoop maxDimension (testScale * 2) (Fin (of_nat testScale))
      else Some maxScale)"

declare maxScaleLoop.simps [code]

text \<open>
  The callback of \<^verbatim>\<open>setSVG\<close> (lines 127 to 164). \<open>calculated\<close> is what the base class's
  \<^verbatim>\<open>calculateRotationCenter()\<close> returns when it is asked.
\<close>

definition loadDone ::
  "(jsnum \<times> jsnum) option \<Rightarrow> canvas \<Rightarrow> jsnum \<times> jsnum \<Rightarrow> skin \<Rightarrow> (error option \<times> skin) option" where
  "loadDone rotationCenter c calculated s =
     (let s1 = s\<lparr>textureScale := Fin 1, maxTextureScale := Fin 1\<rparr> in
      if cwidth c = 0 \<or> cheight c = 0 then Some (Some IndexSizeError, s1)
      else
        let s2 = (case texture s1 of
                    Some t \<Rightarrow> s1\<lparr>texture := Some c, silhouette := Some c\<rparr>
                  | None \<Rightarrow> s1\<lparr>texture := Some c, silhouette := Some c\<rparr>);
            maxDimension = max (cwidth c) (cheight c)
        in case maxScaleLoop maxDimension 2 (maxTextureScale s2) of
             None \<Rightarrow> None
           | Some m \<Rightarrow>
               let s3 = s2\<lparr>maxTextureScale := m\<rparr>;
                   rc = (case rotationCenter of None \<Rightarrow> calculated | Some r \<Rightarrow> r);
                   s4 = setRotationCenter s3 (fst rc) (snd rc)
               in Some (None, s4\<lparr>emitted := emitted s4 + 1\<rparr>))"

section \<open>Runs of a skin\<close>

text \<open>
  What can happen to a skin: a call of one of its four methods, or the renderer
  finishing one of the pending draws (any of them: the code does not rely on an order),
  with the canvas it has drawn and the default rotation center of the base class.
\<close>

datatype event =
  SetSVG loadResult "(jsnum \<times> jsnum) option"
| GetTexture "(jsnum \<times> jsnum) option"
| SetRotationCenter jsnum jsnum
| Dispose
| Complete nat canvas "jsnum \<times> jsnum"

definition dropAt :: "nat \<Rightarrow> 'a list \<Rightarrow> 'a list" where
  "dropAt i xs = take i xs @ drop (Suc i) xs"

text \<open>
  The skin after an event; \<open>None\<close> when the event cannot happen (no such pending draw)
  or does not return. An exception ends the method or callback that raised it and leaves
  the fields as they are then.
\<close>

fun fire :: "skin \<Rightarrow> event \<Rightarrow> skin option" where
  "fire s (SetSVG loaded rotationCenter) = Some (snd (setSVG s loaded rotationCenter))"
| "fire s (GetTexture scale) = map_option snd (getTexture s scale)"
| "fire s (SetRotationCenter x y) = Some (setRotationCenter s x y)"
| "fire s Dispose = Some (dispose s)"
| "fire s (Complete i c calculated) =
     (if i < length (pending s)
      then (case pending s ! i of
              LoadDone rotationCenter \<Rightarrow>
                map_option snd
                  (loadDone rotationCenter c calculated (s\<lparr>pending := dropAt i (pending s)\<rparr>))
            | UpgradeDone newScale \<Rightarrow>
                Some (snd (upgradeDone newScale c (s\<lparr>pending := dropAt i (pending s)\<rparr>))))
      else None)"

fun run :: "skin \<Rightarrow> event list \<Rightarrow> skin option" where
  "run s [] = Some s"
| "run s (e # es) = (case fire s e of None \<Rightarrow> None | Some s' \<Rightarrow> run s' es)"

text \<open>The event is the completion of a load's draw.\<close>

definition completesLoad :: "skin \<Rightarrow> event \<Rightarrow> bool" where
  "completesLoad s e =
     (case e of
        Complete i c calculated \<Rightarrow>
          i < length (pending s) \<and>
          (case pending s ! i of LoadDone rotationCenter \<Rightarrow> True | UpgradeDone newScale \<Rightarrow> False)
      | _ \<Rightarrow> False)"

text \<open>No load's draw completes during the run \<open>es\<close> from \<open>s\<close>.\<close>

fun noLoadCompletes :: "skin \<Rightarrow> event list \<Rightarrow> bool" where
  "noLoadCompletes s [] = True"
| "noLoadCompletes s (e # es) =
     (\<not> completesLoad s e \<and>
      (case fire s e of None \<Rightarrow> True | Some s' \<Rightarrow> noLoadCompletes s' es))"

section \<open>States before and after the first load\<close>

text \<open>
  The scales as the constructor leaves them, with no texture yet; and the scales once a
  load's draw has completed: two powers of two, the current one at most the maximum.
\<close>

definition unloaded :: "skin \<Rightarrow> bool" where
  "unloaded s = (textureScale s = Fin 1 \<and> maxTextureScale s = Fin 0 \<and> texture s = None)"

definition loaded :: "skin \<Rightarrow> bool" where
  "loaded s = (\<exists>j k. j \<le> k \<and> textureScale s = Fin (2 ^ j) \<and> maxTextureScale s = Fin (2 ^ k))"

section \<open>A sample run\<close>

text \<open>
  A skin is created, loads a drawing of 300 by 300 units whose view box starts at
  \<open>(10, 20)\<close>, and the draw at scale 1 completes on a canvas of 300 by 300 pixels.
\<close>

definition canvas300 :: canvas where
  "canvas300 = \<lparr>cwidth = 300, cheight = 300, pixels = [0, 0, 0, 255]\<rparr>"

definition loadRun :: "event list" where
  "loadRun =
     [SetSVG (Loaded (Fin 300, Fin 300) (Fin 10, Fin 20)) None,
      Complete 0 canvas300 (Fin 150, Fin 150)]"

definition loadedSkin :: skin where
  "loadedSkin =
     \<lparr>texture = Some canvas300, textureScale = Fin 1, maxTextureScale = Fin 4,
      size = (Fin 300, Fin 300), viewOffset = (Fin 10, Fin 20),
      rawRotationCenter = (Fin 150, Fin 150), silhouette = Some canvas300,
      baseCalls = [(Fin 140, Fin 130)], emitted = 1, pending = []\<rparr>"

text \<open>
  Then a request at 200 percent raises the texture scale to 2 and asks for a draw, and
  before that draw completes the skin loads a second drawing, of 100 by 100 units; its
  draw at scale 1 will complete on a canvas of 100 by 100 pixels.
\<close>

definition canvas100 :: canvas where
  "canvas100 = \<lparr>cwidth = 100, cheight = 100, pixels = [255, 0, 0, 255]\<rparr>"

definition upgradeRun :: "event list" where
  "upgradeRun = loadRun @ [GetTexture (Some (Fin 200, Fin 200))]"

definition upgradedSkin :: skin where
  "upgradedSkin = loadedSkin\<lparr>textureScale := Fin 2, pending := [UpgradeDone (Fin 2)]\<rparr>"

definition reloadRun :: "event list" where
  "reloadRun = upgradeRun @ [SetSVG (Loaded (Fin 100, Fin 100) (Fin 0, Fin 0)) None]"

definition reloadingSkin :: skin where
  "reloadingSkin =
     upgradedSkin\<lparr>size := (Fin 100, Fin 100), viewOffset := (Fin 0, Fin 0),
                  rawRotationCenter := (NaN, NaN),
                  pending := [UpgradeDone (Fin 2), LoadDone None]\<rparr>"

text \<open>
  A second skin loads a drawing of 1025 by 7 units, drawn on a canvas of 1025 by 7
  pixels: no power of two from 2 on fits, and the maximum texture scale stays 1.
\<close>

definition canvasWide :: canvas where
  "canvasWide = \<lparr>cwidth = 1025, cheight = 7, pixels = [0, 255, 0, 255]\<rparr>"

definition wideRun :: "event list" where
  "wideRun =
     [SetSVG (Loaded (Fin 1025, Fin 7) (Fin 0, Fin 0)) (Some (Fin 512, Fin 3)),
      Complete 0 canvasWide (Fin 0, Fin 0)]"

definition wideSkin :: skin where
  "wideSkin =
     \<lparr>texture = Some canvasWide, textureScale = Fin 1, maxTextureScale = Fin 1,
      size = (Fin 1025, Fin 7), viewOffset = (Fin 0, Fin 0),
      rawRotationCenter = (Fin 512, Fin 3), silhouette = Some canvasWide,
      baseCalls = [(Fin 512, Fin 3)], emitted = 1, pending = []\<rparr>"

section \<open>The loop of \<^verbatim>\<open>getTexture\<close>\<close>

lemma upgradeLoop_Fin:
  "0 < a \<Longrightarrow> m \<le> a * 2 ^ n \<Longrightarrow>
   \<exists>k\<le>n. upgradeLoop (Fin a) (Fin m) r = Some (Fin (a * 2 ^ k)) \<and>
     (\<forall>j<k. a * 2 ^ j < m \<and> js_ge r (Fin (3 / 2 * (a * 2 ^ j)))) \<and>
     \<not> (a * 2 ^ k < m \<and> js_ge r (Fin (3 / 2 * (a * 2 ^ k))))"
proof (induction n arbitrary: a)
  case 0
  then have "upgradeLoop (Fin a) (Fin m) r = Some (Fin a)"
    by (subst upgradeLoop.simps) simp
  with 0 show ?case by simp
next
  case (Suc n)
  show ?case
  proof (cases "a < m \<and> js_ge r (Fin (3 / 2 * a))")
    case False
    then have "upgradeLoop (Fin a) (Fin m) r = Some (Fin a)"
      by (subst upgradeLoop.simps) auto
    with False show ?thesis by (intro exI[of _ 0]) simp
  next
    case True
    from Suc.prems have "0 < a * 2" "m \<le> a * 2 * 2 ^ n" by (simp_all add: mult.assoc)
    from Suc.IH[OF this] obtain k where k: "k \<le> n"
      "upgradeLoop (Fin (a * 2)) (Fin m) r = Some (Fin (a * 2 * 2 ^ k))"
      "\<forall>j<k. a * 2 * 2 ^ j < m \<and> js_ge r (Fin (3 / 2 * (a * 2 * 2 ^ j)))"
      "\<not> (a * 2 * 2 ^ k < m \<and> js_ge r (Fin (3 / 2 * (a * 2 * 2 ^ k))))"
      by blast
    from True have "upgradeLoop (Fin a) (Fin m) r = upgradeLoop (Fin (a * 2)) (Fin m) r"
      by (subst upgradeLoop.simps) simp
    with k(2) have 1: "upgradeLoop (Fin a) (Fin m) r = Some (Fin (a * 2 ^ Suc k))"
      by (simp add: mult.assoc)
    have 2: "\<forall>j<Suc k. a * 2 ^ j < m \<and> js_ge r (Fin (3 / 2 * (a * 2 ^ j)))"
    proof (intro allI impI)
      fix j assume "j < Suc k"
      show "a * 2 ^ j < m \<and> js_ge r (Fin (3 / 2 * (a * 2 ^ j)))"
      proof (cases j)
        case 0 with True show ?thesis by simp
      next
        case (Suc i)
        with \<open>j < Suc k\<close> have "i < k" by simp
        with k(3) Suc show ?thesis by (simp add: mult.assoc)
      qed
    qed
    from k(4) have 3: "\<not> (a * 2 ^ Suc k < m \<and> js_ge r (Fin (3 / 2 * (a * 2 ^ Suc k))))"
      by (simp add: mult.assoc)
    from k(1) 1 2 3 show ?thesis by (intro exI[of _ "Suc k"]) blast
  qed
qed

lemma ex_pow2_bound: "0 < (a::rat) \<Longrightarrow> \<exists>n. m \<le> a * 2 ^ n"
proof -
  assume a: "0 < a"
  obtain n :: nat where "m / a < of_nat n" using reals_Archimedean2 by blast
  also have "(of_nat n :: rat) < 2 ^ n" by (rule of_nat_less_two_power)
  finally have "m / a < 2 ^ n" .
  with a have "m < a * 2 ^ n" by (simp add: pos_divide_less_eq mult.commute)
  then show ?thesis by (intro exI[of _ n]) simp
qed



lemma js_seq_Fin [simp]: "js_seq (Fin a) (Fin b) = (a = b)"
  by simp

lemma getTexture_Fin:
  assumes ts: "textureScale s = Fin a" and a: "0 < a" and mx: "maxTextureScale s = Fin m"
  shows "\<exists>k. (\<forall>j<k. a * 2 ^ j < m \<and> js_ge (requestedScaleOf s scale) (Fin (3 / 2 * (a * 2 ^ j)))) \<and>
     \<not> (a * 2 ^ k < m \<and> js_ge (requestedScaleOf s scale) (Fin (3 / 2 * (a * 2 ^ k)))) \<and>
     getTexture s scale =
       Some (texture s,
             if k = 0 then s
             else s\<lparr>textureScale := Fin (a * 2 ^ k),
                    pending := pending s @ [UpgradeDone (Fin (a * 2 ^ k))]\<rparr>)"
proof -
  from ex_pow2_bound[OF a] obtain n where "m \<le> a * 2 ^ n" ..
  from upgradeLoop_Fin[OF a this, of "requestedScaleOf s scale"]
  obtain k where k:
    "upgradeLoop (Fin a) (Fin m) (requestedScaleOf s scale) = Some (Fin (a * 2 ^ k))"
    "\<forall>j<k. a * 2 ^ j < m \<and> js_ge (requestedScaleOf s scale) (Fin (3 / 2 * (a * 2 ^ j)))"
    "\<not> (a * 2 ^ k < m \<and> js_ge (requestedScaleOf s scale) (Fin (3 / 2 * (a * 2 ^ k))))"
    by blast
  have eq: "(a = a * 2 ^ k) = (k = 0)"
  proof
    assume "a = a * 2 ^ k"
    with a have "(2::rat) ^ k = 2 ^ 0" by simp
    then show "k = 0" by (simp only: power_inject_exp one_less_numeral_iff semiring_norm)
  qed simp
  have "getTexture s scale =
       Some (texture s,
             if k = 0 then s
             else s\<lparr>textureScale := Fin (a * 2 ^ k),
                    pending := pending s @ [UpgradeDone (Fin (a * 2 ^ k))]\<rparr>)"
    using k(1) eq by (simp add: getTexture_def ts mx)
  with k(2,3) show ?thesis by blast
qed

lemma getTexture_unloaded: "unloaded s \<Longrightarrow> getTexture s scale = Some (None, s)"
  by (simp add: unloaded_def getTexture_def upgradeLoop.simps)

lemma getTexture_loaded:
  assumes "loaded s"
  shows "\<exists>s'. getTexture s scale = Some (texture s, s') \<and> loaded s'
     \<and> js_le (textureScale s) (textureScale s')"
proof -
  from assms obtain j k where jk: "j \<le> k" "textureScale s = Fin (2 ^ j)"
    "maxTextureScale s = Fin (2 ^ k)" unfolding loaded_def by blast
  from getTexture_Fin[OF jk(2) _ jk(3), of scale] obtain i where i:
    "\<forall>l<i. (2::rat) ^ j * 2 ^ l < 2 ^ k \<and> js_ge (requestedScaleOf s scale) (Fin (3 / 2 * (2 ^ j * 2 ^ l)))"
    "getTexture s scale =
       Some (texture s,
             if i = 0 then s
             else s\<lparr>textureScale := Fin (2 ^ j * 2 ^ i),
                    pending := pending s @ [UpgradeDone (Fin (2 ^ j * 2 ^ i))]\<rparr>)"
    by auto
  show ?thesis
  proof (cases i)
    case 0
    with i(2) assms jk show ?thesis by (simp add: js_le_def)
  next
    case (Suc l)
    with i(1) have "(2::rat) ^ j * 2 ^ l < 2 ^ k" by simp
    then have "(2::rat) ^ (j + l) < 2 ^ k" by (simp add: power_add)
    then have "j + l < k" by simp
    then have le: "j + i \<le> k" using Suc by simp
    have "(2::rat) ^ j \<le> 2 ^ (j + i)" by simp
    then have mono: "js_le (Fin (2 ^ j)) (Fin (2 ^ (j + i)))"
      by (auto simp: js_le_def)
    define s' where "s' = s\<lparr>textureScale := Fin (2 ^ (j + i)),
                    pending := pending s @ [UpgradeDone (Fin (2 ^ (j + i)))]\<rparr>"
    from i(2) Suc have get: "getTexture s scale = Some (texture s, s')"
      by (simp only: s'_def power_add) simp
    have "loaded s'"
      unfolding loaded_def using le jk(3) by (intro exI[of _ "j + i"] exI[of _ k]) (simp add: s'_def)
    moreover have "js_le (textureScale s) (textureScale s')"
      using mono by (simp add: s'_def jk(2))
    ultimately show ?thesis using get by blast
  qed
qed

section \<open>The callback of \<^verbatim>\<open>setSVG\<close>\<close>

lemma maxScaleLoop_steps:
  "0 < d \<Longrightarrow> MAX_TEXTURE_DIMENSION < d * (t * 2 ^ n) \<Longrightarrow>
   \<exists>k\<le>n. maxScaleLoop d t m = Some (if k = 0 then m else Fin (of_nat (t * 2 ^ (k - 1)))) \<and>
     (\<forall>j<k. d * (t * 2 ^ j) \<le> MAX_TEXTURE_DIMENSION) \<and>
     MAX_TEXTURE_DIMENSION < d * (t * 2 ^ k)"
proof (induction n arbitrary: t m)
  case 0
  then have "maxScaleLoop d t m = Some m"
    by (subst maxScaleLoop.simps) simp
  with 0 show ?case by simp
next
  case (Suc n)
  show ?case
  proof (cases "d * t \<le> MAX_TEXTURE_DIMENSION")
    case False
    then have "maxScaleLoop d t m = Some m"
      by (subst maxScaleLoop.simps) simp
    with False show ?thesis by (intro exI[of _ 0]) simp
  next
    case True
    from \<open>0 < d\<close> have "1 * t \<le> d * t" by (intro mult_le_mono1) simp
    then have "t \<le> d * t" by (simp only: mult_1)
    with True have "t \<le> 2048" unfolding MAX_TEXTURE_DIMENSION_def by linarith
    also have "\<dots> < (2::nat) ^ 1024" by simp
    finally have fin: "t < 2 ^ 1024" .
    from Suc.prems have "MAX_TEXTURE_DIMENSION < d * (t * 2 * 2 ^ n)"
      by (simp add: mult.assoc)
    from Suc.IH[OF \<open>0 < d\<close> this, of "Fin (of_nat t)"] obtain k where k: "k \<le> n"
      "maxScaleLoop d (t * 2) (Fin (of_nat t)) =
         Some (if k = 0 then Fin (of_nat t) else Fin (of_nat (t * 2 * 2 ^ (k - 1))))"
      "\<forall>j<k. d * (t * 2 * 2 ^ j) \<le> MAX_TEXTURE_DIMENSION"
      "MAX_TEXTURE_DIMENSION < d * (t * 2 * 2 ^ k)"
      by blast
    from True fin have "maxScaleLoop d t m = maxScaleLoop d (t * 2) (Fin (of_nat t))"
      by (subst maxScaleLoop.simps) simp
    with k(2) have 1: "maxScaleLoop d t m = Some (Fin (of_nat (t * 2 ^ k)))"
      by (cases k) (simp_all add: mult.assoc)
    have 2: "\<forall>j<Suc k. d * (t * 2 ^ j) \<le> MAX_TEXTURE_DIMENSION"
    proof (intro allI impI)
      fix j assume "j < Suc k"
      show "d * (t * 2 ^ j) \<le> MAX_TEXTURE_DIMENSION"
      proof (cases j)
        case 0 with True show ?thesis by simp
      next
        case (Suc i)
        with \<open>j < Suc k\<close> have "i < k" by simp
        with k(3) Suc show ?thesis by (simp add: mult.assoc)
      qed
    qed
    from k(4) have 3: "MAX_TEXTURE_DIMENSION < d * (t * 2 ^ Suc k)"
      by (simp add: mult.assoc)
    from k(1) 1 2 3 show ?thesis by (intro exI[of _ "Suc k"]) simp
  qed
qed

text \<open>From \<open>testScale = 2\<close>: the result is a power of two, the largest that fits.\<close>

lemma maxScaleLoop_from_2:
  assumes "0 < d"
  shows "\<exists>k. maxScaleLoop d 2 (Fin 1) = Some (Fin (2 ^ k)) \<and>
     (0 < k \<longrightarrow> d * 2 ^ k \<le> MAX_TEXTURE_DIMENSION) \<and>
     MAX_TEXTURE_DIMENSION < d * 2 ^ Suc k"
proof -
  have "(2048::nat) < 1 * (2 * 2 ^ 11)" by simp
  also have "\<dots> \<le> d * (2 * 2 ^ 11)" using assms by (intro mult_le_mono1) simp
  finally have "MAX_TEXTURE_DIMENSION < d * (2 * 2 ^ 11)"
    by (simp only: MAX_TEXTURE_DIMENSION_def)
  from maxScaleLoop_steps[OF assms this, of "Fin 1"] obtain k where k:
    "maxScaleLoop d 2 (Fin 1) = Some (if k = 0 then Fin 1 else Fin (of_nat (2 * 2 ^ (k - 1))))"
    "\<forall>j<k. d * (2 * 2 ^ j) \<le> MAX_TEXTURE_DIMENSION"
    "MAX_TEXTURE_DIMENSION < d * (2 * 2 ^ k)"
    by blast
  show ?thesis
  proof (cases k)
    case 0
    with k show ?thesis by (intro exI[of _ 0]) simp
  next
    case (Suc i)
    with k(2) have "d * (2 * 2 ^ i) \<le> MAX_TEXTURE_DIMENSION" by simp
    with k(1,3) Suc show ?thesis by (intro exI[of _ k]) simp
  qed
qed

lemma setRotationCenter_scales [simp]:
  "textureScale (setRotationCenter s x y) = textureScale s"
  "maxTextureScale (setRotationCenter s x y) = maxTextureScale s"
  "texture (setRotationCenter s x y) = texture s"
  "silhouette (setRotationCenter s x y) = silhouette s"
  "pending (setRotationCenter s x y) = pending s"
  by (simp_all add: setRotationCenter_def)

lemma loadDone_empty:
  "cwidth c = 0 \<or> cheight c = 0 \<Longrightarrow>
   loadDone rc c calc s =
     Some (Some IndexSizeError, s\<lparr>textureScale := Fin 1, maxTextureScale := Fin 1\<rparr>)"
  by (simp add: loadDone_def)

lemma loadDone_drawn:
  assumes "0 < cwidth c" "0 < cheight c"
  shows "\<exists>s' k. loadDone rc c calc s = Some (None, s') \<and>
     textureScale s' = Fin 1 \<and> maxTextureScale s' = Fin (2 ^ k) \<and>
     texture s' = Some c \<and> silhouette s' = Some c \<and>
     (0 < k \<longrightarrow> max (cwidth c) (cheight c) * 2 ^ k \<le> MAX_TEXTURE_DIMENSION) \<and>
     MAX_TEXTURE_DIMENSION < max (cwidth c) (cheight c) * 2 ^ Suc k"
proof -
  from assms have "0 < max (cwidth c) (cheight c)" by simp
  from maxScaleLoop_from_2[OF this] obtain k where k:
    "maxScaleLoop (max (cwidth c) (cheight c)) 2 (Fin 1) = Some (Fin (2 ^ k))"
    "0 < k \<longrightarrow> max (cwidth c) (cheight c) * 2 ^ k \<le> MAX_TEXTURE_DIMENSION"
    "MAX_TEXTURE_DIMENSION < max (cwidth c) (cheight c) * 2 ^ Suc k"
    by blast
  from assms k(1) have "\<exists>s'. loadDone rc c calc s = Some (None, s') \<and>
     textureScale s' = Fin 1 \<and> maxTextureScale s' = Fin (2 ^ k) \<and>
     texture s' = Some c \<and> silhouette s' = Some c"
    by (cases "texture s") (simp_all add: loadDone_def Let_def)
  with k(2,3) show ?thesis by blast
qed

lemma loadDone_loaded: "\<exists>r s'. loadDone rc c calc s = Some (r, s') \<and> loaded s'"
proof (cases "cwidth c = 0 \<or> cheight c = 0")
  case True
  have "loaded (s\<lparr>textureScale := Fin 1, maxTextureScale := Fin 1\<rparr>)"
    unfolding loaded_def by (intro exI[of _ 0]) simp
  with loadDone_empty[OF True] show ?thesis by blast
next
  case False
  then have "0 < cwidth c" "0 < cheight c" by simp_all
  from loadDone_drawn[OF this, of rc calc s] obtain s' k where
    "loadDone rc c calc s = Some (None, s')" "textureScale s' = Fin 1"
    "maxTextureScale s' = Fin (2 ^ k)" by blast
  moreover from this have "loaded s'"
    unfolding loaded_def by (intro exI[of _ 0] exI[of _ k]) simp
  ultimately show ?thesis by blast
qed

section \<open>What every run preserves\<close>

lemma fire_loaded:
  assumes "loaded s" "fire s e = Some s'"
  shows "loaded s'"
proof (cases e)
  case (SetSVG l rc)
  with assms show ?thesis by (cases l) (auto simp: setSVG_def loaded_def)
next
  case (GetTexture scale)
  with assms getTexture_loaded[OF assms(1), of scale] show ?thesis by auto
next
  case (SetRotationCenter x y)
  with assms show ?thesis by (auto simp: loaded_def)
next
  case Dispose
  with assms show ?thesis by (auto simp: dispose_def loaded_def split: option.splits)
next
  case (Complete i c calc)
  with assms(2) have i: "i < length (pending s)" by (simp split: if_splits)
  show ?thesis
  proof (cases "pending s ! i")
    case (LoadDone rc)
    from loadDone_loaded[of rc c calc "s\<lparr>pending := dropAt i (pending s)\<rparr>"]
    show ?thesis using assms(2) Complete i LoadDone by auto
  next
    case (UpgradeDone n)
    with assms Complete i show ?thesis
      by (auto simp: upgradeDone_def loaded_def split: if_splits)
  qed
qed

lemma fire_completesLoad:
  assumes "completesLoad s e" "fire s e = Some s'"
  shows "loaded s'"
proof -
  from assms(1) obtain i c calc rc where e: "e = Complete i c calc" "i < length (pending s)"
    "pending s ! i = LoadDone rc"
    by (auto simp: completesLoad_def split: event.splits callback.splits)
  from loadDone_loaded[of rc c calc "s\<lparr>pending := dropAt i (pending s)\<rparr>"]
  show ?thesis using assms(2) e by auto
qed

lemma fire_unloaded:
  assumes "unloaded s" "\<not> completesLoad s e" "fire s e = Some s'"
  shows "unloaded s'"
proof (cases e)
  case (SetSVG l rc)
  with assms show ?thesis by (cases l) (auto simp: setSVG_def unloaded_def)
next
  case (GetTexture scale)
  with assms getTexture_unloaded[OF assms(1), of scale] show ?thesis by auto
next
  case (SetRotationCenter x y)
  with assms show ?thesis by (auto simp: unloaded_def)
next
  case Dispose
  with assms show ?thesis by (auto simp: dispose_def unloaded_def split: option.splits)
next
  case (Complete i c calc)
  with assms(3) have i: "i < length (pending s)" by (simp split: if_splits)
  with assms(2) Complete obtain n where "pending s ! i = UpgradeDone n"
    by (cases "pending s ! i") (auto simp: completesLoad_def)
  with assms Complete i show ?thesis
    by (auto simp: upgradeDone_def unloaded_def split: if_splits)
qed

lemma run_loaded: "loaded s \<Longrightarrow> run s es = Some s' \<Longrightarrow> loaded s'"
proof (induction es arbitrary: s)
  case Nil then show ?case by simp
next
  case (Cons e es)
  then show ?case by (auto split: option.splits dest: fire_loaded)
qed

lemma run_unloaded:
  "unloaded s \<Longrightarrow> run s es = Some s' \<Longrightarrow>
   (if noLoadCompletes s es then unloaded s' else loaded s')"
proof (induction es arbitrary: s)
  case Nil then show ?case by simp
next
  case (Cons e es)
  from Cons.prems(2) obtain s1 where s1: "fire s e = Some s1" "run s1 es = Some s'"
    by (auto split: option.splits)
  show ?case
  proof (cases "completesLoad s e")
    case True
    with s1 have "loaded s'" by (blast intro: run_loaded fire_completesLoad)
    with True show ?thesis by simp
  next
    case False
    with Cons.prems(1) s1(1) have "unloaded s1" by (blast intro: fire_unloaded)
    from Cons.IH[OF this s1(2)] False s1(1) show ?thesis by simp
  qed
qed

lemma unloaded_newSkin: "unloaded newSkin"
  by (simp add: unloaded_def newSkin_def)

lemma reachable_cases:
  "run newSkin es = Some s \<Longrightarrow>
   (if noLoadCompletes newSkin es then unloaded s else loaded s)"
  by (rule run_unloaded[OF unloaded_newSkin])

section \<open>The sample run, evaluated\<close>

lemmas sample_defs = loadRun_def loadedSkin_def canvas300_def newSkin_def
  canvas100_def upgradeRun_def upgradedSkin_def reloadRun_def reloadingSkin_def
  canvasWide_def wideRun_def wideSkin_def

lemmas eval_defs = setSVG_def loadDone_def maxScaleLoop.simps MAX_TEXTURE_DIMENSION_def
  dropAt_def setRotationCenter_def Let_def getTexture_def upgradeLoop.simps
  requestedScaleOf_def scaleMaxOf_def js_max_def js_min_def js_ge_def js_le_def
  upgradeDone_def dispose_def completesLoad_def

lemma run_append:
  "run s (es @ es') = (case run s es of None \<Rightarrow> None | Some s' \<Rightarrow> run s' es')"
  by (induction es arbitrary: s) (simp_all split: option.splits)

lemma run_loadRun: "run newSkin loadRun = Some loadedSkin"
  by (simp add: sample_defs setSVG_def loadDone_def maxScaleLoop.simps
      MAX_TEXTURE_DIMENSION_def dropAt_def setRotationCenter_def Let_def)

lemma run_upgradeRun: "run newSkin upgradeRun = Some upgradedSkin"
  unfolding upgradeRun_def run_append run_loadRun
  by (simp add: loadedSkin_def upgradedSkin_def canvas300_def eval_defs)

lemma run_reloadRun: "run newSkin reloadRun = Some reloadingSkin"
  unfolding reloadRun_def run_append run_upgradeRun
  by (simp add: loadedSkin_def upgradedSkin_def reloadingSkin_def canvas300_def eval_defs)

section \<open>The texture scale along a run\<close>

lemma js_le_trans: "js_le a b \<Longrightarrow> js_le b c \<Longrightarrow> js_le a c"
  by (cases a; cases b; cases c) (auto simp: js_le_def)

lemma reachable_keeps: "run newSkin es = Some s \<Longrightarrow> loaded s \<or> unloaded s"
  using reachable_cases[of es s] by (cases "noLoadCompletes newSkin es") simp_all

lemma reachable_Fin:
  assumes "run newSkin es = Some s"
  shows "\<exists>j m. textureScale s = Fin (2 ^ j) \<and> maxTextureScale s = Fin m \<and>
    (m = 0 \<or> (\<exists>k. m = 2 ^ k))"
proof (cases "noLoadCompletes newSkin es")
  case True
  with reachable_cases[OF assms] have "unloaded s" by simp
  then show ?thesis unfolding unloaded_def by (intro exI[of _ 0] exI[of _ 0]) simp
next
  case False
  with reachable_cases[OF assms] have "loaded s" by simp
  then show ?thesis unfolding loaded_def by auto
qed

lemma run_wideRun: "run newSkin wideRun = Some wideSkin"
  by (simp add: sample_defs setSVG_def loadDone_def maxScaleLoop.simps
      MAX_TEXTURE_DIMENSION_def dropAt_def setRotationCenter_def Let_def)

lemma js_ge_Fin: "js_ge (Fin a) (Fin b) = (b \<le> a)"
  by (auto simp: js_ge_def)

lemma scaleMaxOf_cases:
  "scaleMaxOf (Some (Fin x, Fin y)) = Fin (max \<bar>x\<bar> \<bar>y\<bar>)"
  "sx = NaN \<or> sy = NaN \<Longrightarrow> scaleMaxOf (Some (sx, sy)) = NaN"
  "sx \<noteq> NaN \<Longrightarrow> sy \<noteq> NaN \<Longrightarrow> (\<forall>x. sx \<noteq> Fin x) \<or> (\<forall>y. sy \<noteq> Fin y) \<Longrightarrow>
     scaleMaxOf (Some (sx, sy)) = PosInf"
  "scaleMaxOf None = Fin 100"
proof -
  show "scaleMaxOf (Some (Fin x, Fin y)) = Fin (max \<bar>x\<bar> \<bar>y\<bar>)"
    by (simp add: scaleMaxOf_def js_max_def max_def)
  show "sx = NaN \<or> sy = NaN \<Longrightarrow> scaleMaxOf (Some (sx, sy)) = NaN"
    by (cases sx; cases sy) (simp_all add: scaleMaxOf_def js_max_def)
  show "sx \<noteq> NaN \<Longrightarrow> sy \<noteq> NaN \<Longrightarrow> (\<forall>x. sx \<noteq> Fin x) \<or> (\<forall>y. sy \<noteq> Fin y) \<Longrightarrow>
     scaleMaxOf (Some (sx, sy)) = PosInf"
    by (cases sx; cases sy) (simp_all add: scaleMaxOf_def js_max_def)
  show "scaleMaxOf None = Fin 100"
    by (simp add: scaleMaxOf_def)
qed

lemma requestedScaleOf_cases:
  assumes "maxTextureScale s = Fin m"
  shows "requestedScaleOf s scale =
    (case scaleMaxOf scale of
       NaN \<Rightarrow> NaN | NegInf \<Rightarrow> NegInf | Fin q \<Rightarrow> Fin (min (q / 100) m) | PosInf \<Rightarrow> Fin m)"
  using assms
  by (cases "scaleMaxOf scale") (simp_all add: requestedScaleOf_def js_min_def min_def)

lemma requested_ge_iff:
  assumes "maxTextureScale s = Fin m"
  shows "js_ge (requestedScaleOf s scale) (Fin t) =
    (\<exists>r. requestedScaleOf s scale = Fin r \<and> t \<le> r)"
  using assms
  by (cases "scaleMaxOf scale")
     (auto simp: requestedScaleOf_cases[OF assms] js_ge_def)

lemma getTexture_scale1_capped:
  assumes "textureScale s = Fin 1" "maxTextureScale s = Fin m" "m \<le> 1"
  shows "getTexture s scale = Some (texture s, s)"
  using assms by (simp add: getTexture_def upgradeLoop.simps)

lemma getTexture_scale1_below:
  assumes "textureScale s = Fin 1" "maxTextureScale s = Fin m" "scaleMaxOf scale = Fin q"
    "q < 150"
  shows "getTexture s scale = Some (texture s, s)"
proof -
  from assms(4) have low: "\<not> 3 / 2 \<le> min (q / 100) m" by simp
  have "requestedScaleOf s scale = Fin (min (q / 100) m)"
    by (simp add: requestedScaleOf_cases[OF assms(2)] assms(3))
  with low have "\<not> js_ge (requestedScaleOf s scale) (Fin (3 / 2))"
    by (simp only: js_ge_Fin) simp
  with assms(1,2) show ?thesis by (simp add: getTexture_def upgradeLoop.simps)
qed

lemma getTexture_scale1_up:
  assumes "textureScale s = Fin 1" "maxTextureScale s = Fin (2 ^ k)" "0 < k"
    "scaleMaxOf scale = Fin q" "150 \<le> q" "q < 300"
  shows "getTexture s scale =
    Some (texture s, s\<lparr>textureScale := Fin 2, pending := pending s @ [UpgradeDone (Fin 2)]\<rparr>)"
proof -
  from \<open>0 < k\<close> have "(2::rat) ^ 1 \<le> 2 ^ k" by (intro power_increasing) simp_all
  then have m: "(2::rat) \<le> 2 ^ k" by simp
  define r where "r = min (q / 100) (2 ^ k)"
  have r: "requestedScaleOf s scale = Fin r"
    by (simp add: requestedScaleOf_cases[OF assms(2)] assms(4) r_def)
  from m assms(5,6) have bounds: "3 / 2 \<le> r" "r < 3" by (simp_all add: r_def)
  have "upgradeLoop (Fin 1) (Fin (2 ^ k)) (Fin r) = upgradeLoop (Fin 2) (Fin (2 ^ k)) (Fin r)"
    using m bounds by (subst upgradeLoop.simps) (auto simp: js_ge_def)
  also have "\<dots> = Some (Fin 2)"
    using bounds by (subst upgradeLoop.simps) (auto simp: js_ge_def)
  finally show ?thesis using assms(1,2) r by (simp add: getTexture_def)
qed

lemma getTexture_returns:
  assumes "loaded s \<or> unloaded s"
  shows "\<exists>s'. getTexture s scale = Some (texture s, s') \<and> (loaded s' \<or> unloaded s') \<and>
     js_le (textureScale s) (textureScale s')"
proof (cases "loaded s")
  case True
  from getTexture_loaded[OF this, of scale] show ?thesis by blast
next
  case False
  with assms have u: "unloaded s" by simp
  then have "js_le (textureScale s) (textureScale s)" "texture s = None"
    by (simp_all add: unloaded_def js_le_def)
  with getTexture_unloaded[OF u, of scale] u show ?thesis by simp
qed

lemma getTextures_monotone:
  "loaded s \<or> unloaded s \<Longrightarrow>
   \<exists>s'. run s (map GetTexture scales) = Some s' \<and>
     js_le (textureScale s) (textureScale s')"
proof (induction scales arbitrary: s)
  case Nil
  then have "js_le (textureScale s) (textureScale s)"
    by (auto simp: loaded_def unloaded_def js_le_def)
  then show ?case by simp
next
  case (Cons x xs)
  from getTexture_returns[OF Cons.prems, of x] obtain s1 where s1:
    "getTexture s x = Some (texture s, s1)" "loaded s1 \<or> unloaded s1"
    "js_le (textureScale s) (textureScale s1)" by blast
  from Cons.IH[OF s1(2)] obtain s' where s': "run s1 (map GetTexture xs) = Some s'"
    "js_le (textureScale s1) (textureScale s')" by blast
  from s1(3) s'(2) have "js_le (textureScale s) (textureScale s')" by (rule js_le_trans)
  with s1(1) s'(1) show ?case by simp
qed

lemma fire_monotone:
  assumes "loaded s \<or> unloaded s" "\<not> completesLoad s e" "fire s e = Some s'"
  shows "js_le (textureScale s) (textureScale s')"
proof -
  from assms(1) have refl: "js_le (textureScale s) (textureScale s)"
    by (auto simp: loaded_def unloaded_def js_le_def)
  show ?thesis
  proof (cases e)
    case (SetSVG l rc)
    with assms(3) refl show ?thesis by (cases l) (auto simp: setSVG_def)
  next
    case (GetTexture scale)
    with assms(3) getTexture_returns[OF assms(1), of scale] show ?thesis by auto
  next
    case (SetRotationCenter x y)
    with assms(3) refl show ?thesis by auto
  next
    case Dispose
    with assms(3) refl show ?thesis by (auto simp: dispose_def split: option.splits)
  next
    case (Complete i c calc)
    with assms(3) have i: "i < length (pending s)" by (simp split: if_splits)
    with assms(2) Complete obtain n where "pending s ! i = UpgradeDone n"
      by (cases "pending s ! i") (auto simp: completesLoad_def)
    with assms(3) Complete i refl show ?thesis
      by (auto simp: upgradeDone_def split: if_splits)
  qed
qed

lemma fire_keeps:
  assumes "loaded s \<or> unloaded s" "fire s e = Some s'"
  shows "loaded s' \<or> unloaded s'"
proof (cases "loaded s")
  case True
  with assms(2) show ?thesis by (blast intro: fire_loaded)
next
  case False
  with assms(1) have "unloaded s" by simp
  with assms(2) show ?thesis
    by (cases "completesLoad s e") (blast intro: fire_completesLoad fire_unloaded)+
qed

lemma run_monotone:
  "loaded s \<or> unloaded s \<Longrightarrow> noLoadCompletes s es \<Longrightarrow> run s es = Some s' \<Longrightarrow>
   js_le (textureScale s) (textureScale s')"
proof (induction es arbitrary: s)
  case Nil
  then show ?case by (auto simp: loaded_def unloaded_def js_le_def)
next
  case (Cons e es)
  from Cons.prems(3) obtain s1 where s1: "fire s e = Some s1" "run s1 es = Some s'"
    by (auto split: option.splits)
  with Cons.prems(2) have n: "\<not> completesLoad s e" "noLoadCompletes s1 es" by simp_all
  from fire_monotone[OF Cons.prems(1) n(1) s1(1)]
    Cons.IH[OF fire_keeps[OF Cons.prems(1) s1(1)] n(2) s1(2)]
  show ?case by (rule js_le_trans)
qed

section \<open>The claims\<close>

text \<open>
  Claim C1, as stated, fails where the maximum texture scale is 1 or 0: the loop is
  capped by it. On the skin that loaded the drawing of 1025 by 7 pixels, and on a skin
  just created, the texture scale is 1 and a request with \<open>scaleMax = 151\<close> leaves it at 1
  and requests no draw.
\<close>

theorem scale_151_counterexample:
  "run newSkin wideRun = Some wideSkin \<and>
   textureScale wideSkin = Fin 1 \<and>
   scaleMaxOf (Some (Fin 151, Fin 151)) = Fin 151 \<and>
   getTexture wideSkin (Some (Fin 151, Fin 151)) = Some (Some canvasWide, wideSkin) \<and>
   run newSkin [] = Some newSkin \<and>
   textureScale newSkin = Fin 1 \<and>
   getTexture newSkin (Some (Fin 151, Fin 151)) = Some (None, newSkin)"
  using run_wideRun by (simp add: sample_defs eval_defs)

text \<open>
  Claim C1, amended. \<^verbatim>\<open>getTexture\<close> takes as \<open>scaleMax\<close> the larger of \<open>|sx|\<close> and \<open>|sy|\<close>
  (\<open>NaN\<close> when one of them is, 100 when no scale is given) and as \<open>requestedScale\<close> the
  smaller of \<open>scaleMax / 100\<close> and the maximum texture scale. In every state a skin can
  reach it returns after some number \<open>k\<close> of doublings of \<open>newScale\<close>, which started at
  the current texture scale: \<open>newScale < maxTextureScale\<close> and
  \<open>requestedScale \<ge> 1.5 * newScale\<close> held before each of the \<open>k\<close> doublings, and one of
  the two fails after the last. When \<open>k = 0\<close> nothing changes; otherwise the new scale is
  stored and one draw at that scale is requested. At texture scale 1, \<open>scaleMax = 140\<close>
  requests no draw; \<open>scaleMax = 151\<close>, and already \<open>scaleMax = 150\<close>, raises the texture
  scale to 2 when the maximum texture scale is above 1, and changes nothing when it is
  not.
\<close>

theorem getTexture_hysteresis:
  assumes "run newSkin es = Some s"
  shows "scaleMaxOf (Some (Fin x, Fin y)) = Fin (max \<bar>x\<bar> \<bar>y\<bar>) \<and>
    (sx = NaN \<or> sy = NaN \<longrightarrow> scaleMaxOf (Some (sx, sy)) = NaN) \<and>
    (sx \<noteq> NaN \<and> sy \<noteq> NaN \<and> ((\<forall>v. sx \<noteq> Fin v) \<or> (\<forall>v. sy \<noteq> Fin v)) \<longrightarrow>
       scaleMaxOf (Some (sx, sy)) = PosInf) \<and>
    scaleMaxOf None = Fin 100 \<and>
    (\<exists>a m. textureScale s = Fin a \<and> maxTextureScale s = Fin m \<and>
       requestedScaleOf s scale =
         (case scaleMaxOf scale of
            NaN \<Rightarrow> NaN | NegInf \<Rightarrow> NegInf | Fin q \<Rightarrow> Fin (min (q / 100) m) | PosInf \<Rightarrow> Fin m) \<and>
       (\<exists>k. (\<forall>j<k. a * 2 ^ j < m \<and>
                (\<exists>r. requestedScaleOf s scale = Fin r \<and> 3 / 2 * (a * 2 ^ j) \<le> r)) \<and>
            \<not> (a * 2 ^ k < m \<and>
                (\<exists>r. requestedScaleOf s scale = Fin r \<and> 3 / 2 * (a * 2 ^ k) \<le> r)) \<and>
            getTexture s scale =
              Some (texture s,
                    if k = 0 then s
                    else s\<lparr>textureScale := Fin (a * 2 ^ k),
                           pending := pending s @ [UpgradeDone (Fin (a * 2 ^ k))]\<rparr>)) \<and>
       (a = 1 \<and> scaleMaxOf scale = Fin 140 \<longrightarrow> getTexture s scale = Some (texture s, s)) \<and>
       (a = 1 \<and> (scaleMaxOf scale = Fin 150 \<or> scaleMaxOf scale = Fin 151) \<longrightarrow>
          getTexture s scale =
            Some (texture s,
                  if 1 < m
                  then s\<lparr>textureScale := Fin 2, pending := pending s @ [UpgradeDone (Fin 2)]\<rparr>
                  else s)))"
proof -
  from reachable_Fin[OF assms] obtain i m where im: "textureScale s = Fin (2 ^ i)"
    "maxTextureScale s = Fin m" "m = 0 \<or> (\<exists>k. m = 2 ^ k)" by blast
  define a :: rat where "a = 2 ^ i"
  have a: "0 < a" "textureScale s = Fin a" by (simp_all add: a_def im(1))
  note ge = requested_ge_iff[OF im(2), of scale]
  from getTexture_Fin[OF a(2,1) im(2), of scale] obtain k where
    "\<forall>j<k. a * 2 ^ j < m \<and> js_ge (requestedScaleOf s scale) (Fin (3 / 2 * (a * 2 ^ j)))"
    "\<not> (a * 2 ^ k < m \<and> js_ge (requestedScaleOf s scale) (Fin (3 / 2 * (a * 2 ^ k))))"
    "getTexture s scale =
       Some (texture s,
             if k = 0 then s
             else s\<lparr>textureScale := Fin (a * 2 ^ k),
                    pending := pending s @ [UpgradeDone (Fin (a * 2 ^ k))]\<rparr>)"
    by blast
  then have loop: "\<exists>k. (\<forall>j<k. a * 2 ^ j < m \<and>
                (\<exists>r. requestedScaleOf s scale = Fin r \<and> 3 / 2 * (a * 2 ^ j) \<le> r)) \<and>
            \<not> (a * 2 ^ k < m \<and>
                (\<exists>r. requestedScaleOf s scale = Fin r \<and> 3 / 2 * (a * 2 ^ k) \<le> r)) \<and>
            getTexture s scale =
              Some (texture s,
                    if k = 0 then s
                    else s\<lparr>textureScale := Fin (a * 2 ^ k),
                           pending := pending s @ [UpgradeDone (Fin (a * 2 ^ k))]\<rparr>)"
    unfolding ge by (intro exI[of _ k]) blast
  have low: "a = 1 \<and> scaleMaxOf scale = Fin 140 \<longrightarrow> getTexture s scale = Some (texture s, s)"
    using getTexture_scale1_below[OF _ im(2), of scale 140] a(2) by simp
  have up: "a = 1 \<and> (scaleMaxOf scale = Fin 150 \<or> scaleMaxOf scale = Fin 151) \<longrightarrow>
          getTexture s scale =
            Some (texture s,
                  if 1 < m
                  then s\<lparr>textureScale := Fin 2, pending := pending s @ [UpgradeDone (Fin 2)]\<rparr>
                  else s)"
  proof (intro impI, elim conjE)
    assume a1: "a = 1" and q: "scaleMaxOf scale = Fin 150 \<or> scaleMaxOf scale = Fin 151"
    from a1 a(2) have ts: "textureScale s = Fin 1" by simp
    from q obtain q where q: "scaleMaxOf scale = Fin q" "150 \<le> q" "q < 300" by auto
    show "getTexture s scale =
            Some (texture s,
                  if 1 < m
                  then s\<lparr>textureScale := Fin 2, pending := pending s @ [UpgradeDone (Fin 2)]\<rparr>
                  else s)"
    proof (cases "1 < m")
      case True
      with im(3) obtain k where k: "m = 2 ^ k" by auto
      with True have "0 < k" by (cases k) simp_all
      from getTexture_scale1_up[OF ts _ this q] im(2) k True show ?thesis by simp
    next
      case False
      then have "m \<le> 1" by simp
      from getTexture_scale1_capped[OF ts im(2) this, of scale] False show ?thesis by simp
    qed
  qed
  from scaleMaxOf_cases(1)[of x y] scaleMaxOf_cases(2)[of sx sy] scaleMaxOf_cases(3)[of sx sy]
    scaleMaxOf_cases(4) a(2) im(2) requestedScaleOf_cases[OF im(2), of scale] loop low up
  show ?thesis by blast
qed

theorem getTexture_hysteresis_witness:
  "run newSkin loadRun = Some loadedSkin \<and>
   scaleMaxOf (Some (Fin 20, Fin (- 151))) = Fin 151 \<and>
   scaleMaxOf (Some (NaN, Fin 151)) = NaN \<and>
   requestedScaleOf loadedSkin (Some (Fin 20, Fin (- 151))) = Fin (151 / 100) \<and>
   requestedScaleOf loadedSkin (Some (Fin 1000, Fin 0)) = Fin 4 \<and>
   getTexture loadedSkin (Some (Fin 140, Fin (- 20))) = Some (Some canvas300, loadedSkin) \<and>
   getTexture loadedSkin (Some (Fin 150, Fin 0)) =
     Some (Some canvas300,
           loadedSkin\<lparr>textureScale := Fin 2, pending := [UpgradeDone (Fin 2)]\<rparr>) \<and>
   getTexture loadedSkin (Some (Fin 20, Fin (- 151))) =
     Some (Some canvas300,
           loadedSkin\<lparr>textureScale := Fin 2, pending := [UpgradeDone (Fin 2)]\<rparr>) \<and>
   getTexture wideSkin (Some (Fin 20, Fin (- 151))) = Some (Some canvasWide, wideSkin)"
  using getTexture_hysteresis[OF run_loadRun, where scale = "Some (Fin 140, Fin (- 20))"
      and x = 20 and y = "- 151" and sx = NaN and sy = "Fin 151"]
    getTexture_hysteresis[OF run_loadRun, where scale = "Some (Fin 150, Fin 0)"]
    getTexture_hysteresis[OF run_loadRun, where scale = "Some (Fin 20, Fin (- 151))"]
    getTexture_hysteresis[OF run_loadRun, where scale = "Some (Fin 1000, Fin 0)"]
    getTexture_hysteresis[OF run_wideRun, where scale = "Some (Fin 20, Fin (- 151))"]
    run_loadRun
  by (simp add: loadedSkin_def wideSkin_def scaleMaxOf_def js_max_def)

text \<open>
  Claim C2. When the draw of a load completes on a canvas of width \<open>W\<close> and height \<open>H\<close>,
  both positive, the callback returns and leaves as maximum texture scale the largest
  power of two \<open>K \<ge> 2\<close> with \<open>max(W, H) * K \<le> MAX_TEXTURE_DIMENSION\<close> (2048), or 1 when
  no power of two from 2 on fits. A canvas of 300 by 300 gives 4. (On a canvas with no
  pixels \<^verbatim>\<open>getImageData\<close> throws before the loop is reached.)
\<close>

theorem loadDone_maxTextureScale:
  assumes "0 < cwidth c" "0 < cheight c"
  shows "\<exists>s' K. loadDone rotationCenter c calculated s = Some (None, s') \<and>
     maxTextureScale s' = Fin (of_nat K) \<and>
     (if \<exists>j\<ge>1. max (cwidth c) (cheight c) * 2 ^ j \<le> MAX_TEXTURE_DIMENSION
      then (\<exists>j\<ge>1. K = 2 ^ j) \<and> max (cwidth c) (cheight c) * K \<le> MAX_TEXTURE_DIMENSION \<and>
           (\<forall>i. max (cwidth c) (cheight c) * 2 ^ i \<le> MAX_TEXTURE_DIMENSION \<longrightarrow> 2 ^ i \<le> K)
      else K = 1)"
proof -
  define d where "d = max (cwidth c) (cheight c)"
  from loadDone_drawn[OF assms, of rotationCenter calculated s] obtain s' k where k:
    "loadDone rotationCenter c calculated s = Some (None, s')"
    "maxTextureScale s' = Fin (2 ^ k)"
    "0 < k \<longrightarrow> d * 2 ^ k \<le> MAX_TEXTURE_DIMENSION"
    "MAX_TEXTURE_DIMENSION < d * 2 ^ Suc k"
    unfolding d_def by blast
  have above: "MAX_TEXTURE_DIMENSION < d * 2 ^ i" if "k < i" for i
  proof -
    from that have "Suc k \<le> i" by simp
    then have "(2::nat) ^ Suc k \<le> 2 ^ i" by (intro power_increasing) simp_all
    then have "d * 2 ^ Suc k \<le> d * 2 ^ i" by (rule mult_le_mono2)
    with k(4) show ?thesis by (rule less_le_trans)
  qed
  have le: "i \<le> k" if "d * 2 ^ i \<le> MAX_TEXTURE_DIMENSION" for i
    using that above[of i] by (cases "k < i") simp_all
  have K: "maxTextureScale s' = Fin (of_nat (2 ^ k))" using k(2) by simp
  have "if \<exists>j\<ge>1. d * 2 ^ j \<le> MAX_TEXTURE_DIMENSION
      then (\<exists>j\<ge>1. (2::nat) ^ k = 2 ^ j) \<and> d * 2 ^ k \<le> MAX_TEXTURE_DIMENSION \<and>
           (\<forall>i. d * 2 ^ i \<le> MAX_TEXTURE_DIMENSION \<longrightarrow> (2::nat) ^ i \<le> 2 ^ k)
      else (2::nat) ^ k = 1"
  proof (cases "\<exists>j\<ge>1. d * 2 ^ j \<le> MAX_TEXTURE_DIMENSION")
    case True
    then obtain j where "1 \<le> j" "d * 2 ^ j \<le> MAX_TEXTURE_DIMENSION" by blast
    with le[of j] have "1 \<le> k" by simp
    with k(3) have fits: "d * 2 ^ k \<le> MAX_TEXTURE_DIMENSION" by simp
    have "\<forall>i. d * 2 ^ i \<le> MAX_TEXTURE_DIMENSION \<longrightarrow> (2::nat) ^ i \<le> 2 ^ k"
      using le by (auto intro: power_increasing)
    with True \<open>1 \<le> k\<close> fits show ?thesis by auto
  next
    case False
    have "k = 0"
    proof (rule ccontr)
      assume "k \<noteq> 0"
      with k(3) have "1 \<le> k" "d * 2 ^ k \<le> MAX_TEXTURE_DIMENSION" by simp_all
      with False show False by blast
    qed
    with False show ?thesis by (simp only: if_False power_0)
  qed
  with k(1) K show ?thesis unfolding d_def by blast
qed

theorem loadDone_maxTextureScale_witness:
  "0 < cwidth canvas300 \<and> 0 < cheight canvas300 \<and>
   map_option (maxTextureScale \<circ> snd) (loadDone None canvas300 (Fin 150, Fin 150) newSkin) =
     Some (Fin 4)"
  using loadDone_maxTextureScale[of canvas300 None "(Fin 150, Fin 150)" newSkin]
  by (simp add: canvas300_def newSkin_def eval_defs)

text \<open>
  Claim C3, as stated, fails in the state the constructor leaves: the texture scale is 1
  and the maximum texture scale is 0.
\<close>

theorem scale_bound_counterexample:
  "run newSkin [] = Some newSkin \<and>
   \<not> js_le (textureScale newSkin) (maxTextureScale newSkin)"
  by (simp add: newSkin_def js_le_def)

text \<open>
  Claim C3, amended. In every state a skin can reach the texture scale is a power of two.
  Once the draw of a load has completed, it is at most the maximum texture scale, itself a
  power of two; until then the texture scale is 1 and the maximum texture scale is 0.
\<close>

theorem scale_bound:
  assumes "run newSkin es = Some s"
  shows "(\<exists>j. textureScale s = Fin (2 ^ j)) \<and>
    (if noLoadCompletes newSkin es
     then textureScale s = Fin 1 \<and> maxTextureScale s = Fin 0
     else js_le (textureScale s) (maxTextureScale s) \<and> (\<exists>k. maxTextureScale s = Fin (2 ^ k)))"
proof (cases "noLoadCompletes newSkin es")
  case True
  with reachable_cases[OF assms] have u: "unloaded s" by simp
  then have "textureScale s = Fin (2 ^ 0)" by (simp add: unloaded_def)
  then have "\<exists>j. textureScale s = Fin (2 ^ j)" ..
  with u True show ?thesis by (simp add: unloaded_def)
next
  case False
  with reachable_cases[OF assms] have "loaded s" by simp
  then obtain j k where jk: "j \<le> k" "textureScale s = Fin (2 ^ j)"
    "maxTextureScale s = Fin (2 ^ k)" unfolding loaded_def by blast
  from jk(1) have "(2::rat) ^ j \<le> 2 ^ k" by (intro power_increasing) simp_all
  then have "js_le (Fin (2 ^ j)) (Fin (2 ^ k))" by (auto simp: js_le_def)
  with jk False show ?thesis by auto
qed

theorem scale_bound_witness:
  "run newSkin upgradeRun = Some upgradedSkin \<and> \<not> noLoadCompletes newSkin upgradeRun \<and>
   textureScale upgradedSkin = Fin 2 \<and> maxTextureScale upgradedSkin = Fin 4 \<and>
   js_le (textureScale upgradedSkin) (maxTextureScale upgradedSkin) \<and>
   run newSkin [] = Some newSkin \<and> noLoadCompletes newSkin [] \<and>
   textureScale newSkin = Fin 1 \<and> maxTextureScale newSkin = Fin 0"
  using scale_bound[OF run_upgradeRun] scale_bound[of "[]" newSkin] run_upgradeRun
  by (simp add: sample_defs eval_defs)

text \<open>
  Claim C4, as stated, fails for the callback of \<^verbatim>\<open>setSVG\<close>, which checks nothing. In
  the sample run the texture scale is 2 when the second load's draw, made at scale 1,
  completes: the callback replaces the texture and the silhouette all the same.
\<close>

theorem stale_completion_counterexample:
  "run newSkin reloadRun = Some reloadingSkin \<and>
   pending reloadingSkin ! 1 = LoadDone None \<and>
   textureScale reloadingSkin = Fin 2 \<and>
   texture reloadingSkin = Some canvas300 \<and>
   silhouette reloadingSkin = Some canvas300 \<and>
   map_option texture (fire reloadingSkin (Complete 1 canvas100 (Fin 50, Fin 50))) =
     Some (Some canvas100) \<and>
   map_option silhouette (fire reloadingSkin (Complete 1 canvas100 (Fin 50, Fin 50))) =
     Some (Some canvas100) \<and>
   canvas100 \<noteq> canvas300"
  using run_reloadRun by (simp add: sample_defs eval_defs)

text \<open>
  Claim C4, amended. The callback of every draw that \<^verbatim>\<open>getTexture\<close> requested checks
  that the texture scale is still the scale it was drawn for: if it is not, the callback
  changes nothing, so the completion of a stale upgrade leaves the texture and the
  silhouette as they were; if it is, the canvas (when it has pixels) goes to the
  silhouette and into the texture handle. The callback of \<^verbatim>\<open>setSVG\<close> makes no such
  check: whatever the texture scale is, it sets it to 1 and uploads its canvas.
\<close>

theorem upgrade_callback_guard:
  "(\<not> js_seq (textureScale s) newScale \<longrightarrow> upgradeDone newScale c s = (None, s)) \<and>
   (i < length (pending s) \<and> pending s ! i = UpgradeDone newScale \<and>
    \<not> js_seq (textureScale s) newScale \<longrightarrow>
      fire s (Complete i c calculated) = Some (s\<lparr>pending := dropAt i (pending s)\<rparr>)) \<and>
   (js_seq (textureScale s) newScale \<and> 0 < cwidth c \<and> 0 < cheight c \<longrightarrow>
      upgradeDone newScale c s =
        (None, s\<lparr>texture := map_option (\<lambda>t. c) (texture s), silhouette := Some c\<rparr>)) \<and>
   (0 < cwidth c \<and> 0 < cheight c \<longrightarrow>
      (\<exists>s'. loadDone rotationCenter c calculated s = Some (None, s') \<and>
         textureScale s' = Fin 1 \<and> texture s' = Some c \<and> silhouette s' = Some c))"
proof -
  have 1: "\<not> js_seq (textureScale s) newScale \<longrightarrow> upgradeDone newScale c s = (None, s)"
    by (simp add: upgradeDone_def)
  have 2: "i < length (pending s) \<and> pending s ! i = UpgradeDone newScale \<and>
    \<not> js_seq (textureScale s) newScale \<longrightarrow>
      fire s (Complete i c calculated) = Some (s\<lparr>pending := dropAt i (pending s)\<rparr>)"
    by (simp add: upgradeDone_def)
  have 3: "js_seq (textureScale s) newScale \<and> 0 < cwidth c \<and> 0 < cheight c \<longrightarrow>
      upgradeDone newScale c s =
        (None, s\<lparr>texture := map_option (\<lambda>t. c) (texture s), silhouette := Some c\<rparr>)"
    by (cases "texture s") (simp_all add: upgradeDone_def)
  have 4: "0 < cwidth c \<and> 0 < cheight c \<longrightarrow>
      (\<exists>s'. loadDone rotationCenter c calculated s = Some (None, s') \<and>
         textureScale s' = Fin 1 \<and> texture s' = Some c \<and> silhouette s' = Some c)"
    using loadDone_drawn[of c rotationCenter calculated s] by blast
  from 1 2 3 4 show ?thesis by blast
qed

theorem upgrade_callback_guard_witness:
  "\<not> js_seq (textureScale (upgradedSkin\<lparr>textureScale := Fin 4\<rparr>)) (Fin 2) \<and>
   fire (upgradedSkin\<lparr>textureScale := Fin 4\<rparr>) (Complete 0 canvas100 (Fin 50, Fin 50)) =
     Some (upgradedSkin\<lparr>textureScale := Fin 4, pending := []\<rparr>) \<and>
   js_seq (textureScale upgradedSkin) (Fin 2) \<and>
   upgradeDone (Fin 2) canvas100 upgradedSkin =
     (None, upgradedSkin\<lparr>texture := Some canvas100, silhouette := Some canvas100\<rparr>) \<and>
   map_option (texture \<circ> snd) (loadDone None canvas100 (Fin 50, Fin 50) upgradedSkin) =
     Some (Some canvas100)"
  using upgrade_callback_guard[of "upgradedSkin\<lparr>textureScale := Fin 4\<rparr>" "Fin 2"
      canvas100 0 "(Fin 50, Fin 50)" None]
    upgrade_callback_guard[of upgradedSkin "Fin 2" canvas100 0 "(Fin 50, Fin 50)" None]
  by (simp add: sample_defs eval_defs)

text \<open>
  Claim C5. From every state a skin can reach, any sequence of \<^verbatim>\<open>getTexture\<close> calls
  returns and leaves a texture scale at least the one it started from; more generally no
  run in which no load's draw completes lowers the texture scale. After a request at 200
  percent, a request at 50 percent leaves the texture scale at 2.
\<close>

theorem textureScale_never_decreases:
  assumes "run newSkin es = Some s"
  shows "(\<exists>s'. run s (map GetTexture scales) = Some s' \<and>
            js_le (textureScale s) (textureScale s')) \<and>
         (\<forall>es' s'. noLoadCompletes s es' \<and> run s es' = Some s' \<longrightarrow>
            js_le (textureScale s) (textureScale s'))"
  using getTextures_monotone[OF reachable_keeps[OF assms]]
    run_monotone[OF reachable_keeps[OF assms]]
  by blast

theorem textureScale_never_decreases_witness:
  "run newSkin loadRun = Some loadedSkin \<and>
   run loadedSkin (map GetTexture [Some (Fin 200, Fin 200), Some (Fin 50, Fin 50)]) =
     Some upgradedSkin \<and>
   textureScale loadedSkin = Fin 1 \<and> textureScale upgradedSkin = Fin 2 \<and>
   js_le (textureScale loadedSkin) (textureScale upgradedSkin)"
  using textureScale_never_decreases[OF run_loadRun,
      of "[Some (Fin 200, Fin 200), Some (Fin 50, Fin 50)]"] run_loadRun
  by (simp add: sample_defs eval_defs)

text \<open>
  Claim C6. When the renderer accepts the source, \<^verbatim>\<open>setSVG\<close> returns without an error,
  and on its return the size and the view offset are the ones the renderer reports and
  the raw rotation center is \<open>(NaN, NaN)\<close>, while the draw of the load is still pending:
  the texture, the scales and the silhouette are as before the call.
\<close>

theorem setSVG_synchronous:
  "fst (setSVG s (Loaded sz off) rotationCenter) = None \<and>
   size (snd (setSVG s (Loaded sz off) rotationCenter)) = sz \<and>
   viewOffset (snd (setSVG s (Loaded sz off) rotationCenter)) = off \<and>
   rawRotationCenter (snd (setSVG s (Loaded sz off) rotationCenter)) = (NaN, NaN) \<and>
   pending (snd (setSVG s (Loaded sz off) rotationCenter)) =
     pending s @ [LoadDone rotationCenter] \<and>
   texture (snd (setSVG s (Loaded sz off) rotationCenter)) = texture s \<and>
   silhouette (snd (setSVG s (Loaded sz off) rotationCenter)) = silhouette s \<and>
   textureScale (snd (setSVG s (Loaded sz off) rotationCenter)) = textureScale s \<and>
   maxTextureScale (snd (setSVG s (Loaded sz off) rotationCenter)) = maxTextureScale s \<and>
   fire s (SetSVG (Loaded sz off) rotationCenter) =
     Some (snd (setSVG s (Loaded sz off) rotationCenter))"
  by (simp add: setSVG_def)

theorem setSVG_synchronous_witness:
  "size (snd (setSVG upgradedSkin (Loaded (Fin 100, Fin 100) (Fin 0, Fin 0)) None)) =
     (Fin 100, Fin 100) \<and>
   snd (setSVG upgradedSkin (Loaded (Fin 100, Fin 100) (Fin 0, Fin 0)) None) = reloadingSkin \<and>
   pending reloadingSkin = [UpgradeDone (Fin 2), LoadDone None]"
  using setSVG_synchronous[of upgradedSkin "(Fin 100, Fin 100)" "(Fin 0, Fin 0)" None]
  by (simp add: sample_defs setSVG_def)

text \<open>
  Claim C7. A call \<^verbatim>\<open>setRotationCenter(x, y)\<close> whose \<open>x\<close> or \<open>y\<close> is not \<^verbatim>\<open>===\<close> to
  the stored raw rotation center leaves \<open>(x, y)\<close> as the raw rotation center and
  \<open>(x - viewOffset.x, y - viewOffset.y)\<close> as the rotation center of the base, and does not
  touch the view offset.
\<close>

theorem setRotationCenter_applies:
  assumes "\<not> js_seq x (fst (rawRotationCenter s)) \<or> \<not> js_seq y (snd (rawRotationCenter s))"
  shows "rawRotationCenter (setRotationCenter s x y) = (x, y) \<and>
    baseRotationCenter (setRotationCenter s x y) =
      Some (js_sub x (fst (viewOffset s)), js_sub y (snd (viewOffset s))) \<and>
    viewOffset (setRotationCenter s x y) = viewOffset s"
  using assms by (auto simp: setRotationCenter_def baseRotationCenter_def)

theorem setRotationCenter_applies_witness:
  "\<not> js_seq (Fin 30) (fst (rawRotationCenter loadedSkin)) \<and>
   rawRotationCenter (setRotationCenter loadedSkin (Fin 30) (Fin 150)) = (Fin 30, Fin 150) \<and>
   baseRotationCenter (setRotationCenter loadedSkin (Fin 30) (Fin 150)) =
     Some (Fin 20, Fin 130)"
  using setRotationCenter_applies[of "Fin 30" loadedSkin "Fin 150"]
  by (simp add: sample_defs)

text \<open>
  Claim C8. Called twice in a row with the same \<open>x\<close> and \<open>y\<close>, neither of them \<open>NaN\<close>,
  \<^verbatim>\<open>setRotationCenter\<close> changes nothing the second time: the base is not called again,
  so that the two calls together call it at most once.
  A load leaves \<open>(NaN, NaN)\<close> as raw rotation center, and while a coordinate of the raw
  rotation center is \<open>NaN\<close> a call of \<^verbatim>\<open>setRotationCenter\<close> always calls the base,
  whatever \<open>x\<close> and \<open>y\<close> are.
\<close>

theorem setRotationCenter_idempotent:
  "(x \<noteq> NaN \<and> y \<noteq> NaN \<longrightarrow>
      setRotationCenter (setRotationCenter s x y) x y = setRotationCenter s x y \<and>
      baseCalls (setRotationCenter (setRotationCenter s x y) x y) =
        baseCalls (setRotationCenter s x y) \<and>
      length (baseCalls (setRotationCenter (setRotationCenter s x y) x y)) \<le>
        Suc (length (baseCalls s))) \<and>
   rawRotationCenter (snd (setSVG s (Loaded sz off) rotationCenter)) = (NaN, NaN) \<and>
   baseCalls (setRotationCenter (snd (setSVG s (Loaded sz off) rotationCenter)) x y) =
     baseCalls s @ [(js_sub x (fst off), js_sub y (snd off))] \<and>
   (fst (rawRotationCenter s) = NaN \<or> snd (rawRotationCenter s) = NaN \<longrightarrow>
      rawRotationCenter (setRotationCenter s x y) = (x, y) \<and>
      baseCalls (setRotationCenter s x y) =
        baseCalls s @ [(js_sub x (fst (viewOffset s)), js_sub y (snd (viewOffset s)))])"
proof -
  have seq_refl: "js_seq v v" if "v \<noteq> NaN" for v
    using that by (cases v) simp_all
  have seq_NaN: "\<not> js_seq v NaN" for v
    by (cases v) simp_all
  have 1: "x \<noteq> NaN \<and> y \<noteq> NaN \<longrightarrow>
      setRotationCenter (setRotationCenter s x y) x y = setRotationCenter s x y \<and>
      baseCalls (setRotationCenter (setRotationCenter s x y) x y) =
        baseCalls (setRotationCenter s x y) \<and>
      length (baseCalls (setRotationCenter (setRotationCenter s x y) x y)) \<le>
        Suc (length (baseCalls s))"
    by (simp add: setRotationCenter_def seq_refl)
  have 2: "rawRotationCenter (snd (setSVG s (Loaded sz off) rotationCenter)) = (NaN, NaN)"
    by (simp add: setSVG_def)
  have 3: "baseCalls (setRotationCenter (snd (setSVG s (Loaded sz off) rotationCenter)) x y) =
     baseCalls s @ [(js_sub x (fst off), js_sub y (snd off))]"
    by (simp add: setSVG_def setRotationCenter_def seq_NaN)
  have 4: "fst (rawRotationCenter s) = NaN \<or> snd (rawRotationCenter s) = NaN \<longrightarrow>
      rawRotationCenter (setRotationCenter s x y) = (x, y) \<and>
      baseCalls (setRotationCenter s x y) =
        baseCalls s @ [(js_sub x (fst (viewOffset s)), js_sub y (snd (viewOffset s)))]"
    by (auto simp: setRotationCenter_def seq_NaN)
  from 1 2 3 4 show ?thesis by blast
qed

theorem setRotationCenter_idempotent_witness:
  "baseCalls (setRotationCenter loadedSkin (Fin 30) (Fin 40)) =
     [(Fin 140, Fin 130), (Fin 20, Fin 20)] \<and>
   baseCalls (setRotationCenter (setRotationCenter loadedSkin (Fin 30) (Fin 40)) (Fin 30) (Fin 40)) =
     [(Fin 140, Fin 130), (Fin 20, Fin 20)] \<and>
   fst (rawRotationCenter reloadingSkin) = NaN \<and>
   baseCalls (setRotationCenter reloadingSkin (Fin 150) (Fin 150)) =
     [(Fin 140, Fin 130), (Fin 150, Fin 150)]"
  using setRotationCenter_idempotent[of "Fin 30" "Fin 40" loadedSkin]
    setRotationCenter_idempotent[of "Fin 150" "Fin 150" reloadingSkin]
  by (simp add: sample_defs setRotationCenter_def)

text \<open>
  Claim C9. When the renderer rejects the source, that is when \<^verbatim>\<open>loadString\<close> throws,
  \<^verbatim>\<open>setSVG\<close> fails with that error and the skin is as before the call; in particular
  its size and its view offset keep their values, and no draw is requested.
\<close>

theorem setSVG_rejected:
  "fst (setSVG s Rejected rotationCenter) = Some InvalidSource \<and>
   size (snd (setSVG s Rejected rotationCenter)) = size s \<and>
   viewOffset (snd (setSVG s Rejected rotationCenter)) = viewOffset s \<and>
   snd (setSVG s Rejected rotationCenter) = s \<and>
   fire s (SetSVG Rejected rotationCenter) = Some s"
  by (simp add: setSVG_def)

theorem setSVG_rejected_witness:
  "fst (setSVG loadedSkin Rejected None) = Some InvalidSource \<and>
   size (snd (setSVG loadedSkin Rejected None)) = (Fin 300, Fin 300) \<and>
   viewOffset (snd (setSVG loadedSkin Rejected None)) = (Fin 10, Fin 20)"
  using setSVG_rejected[of loadedSkin None]
  by (simp add: sample_defs)

text \<open>
  Claim C10. Until the draw of a load has completed, the maximum texture scale is 0 and
  the texture scale is 1, so the requested scale, a minimum with 0, never reaches 1.5
  times the texture scale: \<^verbatim>\<open>getTexture\<close> returns \<^verbatim>\<open>null\<close> for every scale argument,
  changes nothing and requests no draw.
\<close>

theorem getTexture_before_first_load:
  assumes "run newSkin es = Some s" "noLoadCompletes newSkin es"
  shows "getTexture s scale = Some (None, s) \<and>
    textureScale s = Fin 1 \<and> maxTextureScale s = Fin 0 \<and>
    requestedScaleOf s scale = js_min (js_div (scaleMaxOf scale) (Fin 100)) (Fin 0) \<and>
    \<not> js_ge (requestedScaleOf s scale) (js_mul (Fin (3 / 2)) (textureScale s)) \<and>
    \<not> js_lt (textureScale s) (maxTextureScale s)"
proof -
  from reachable_cases[OF assms(1)] assms(2) have u: "unloaded s" by simp
  have "\<not> js_ge (js_min v (Fin 0)) (Fin (3 / 2))" for v
    by (cases v) (simp_all add: js_min_def js_ge_def)
  with u getTexture_unloaded[OF u, of scale] show ?thesis
    by (simp add: unloaded_def requestedScaleOf_def)
qed

theorem getTexture_before_first_load_witness:
  "run newSkin (take 1 loadRun) =
     Some (newSkin\<lparr>size := (Fin 300, Fin 300), viewOffset := (Fin 10, Fin 20),
                   pending := [LoadDone None]\<rparr>) \<and>
   noLoadCompletes newSkin (take 1 loadRun) \<and>
   getTexture (newSkin\<lparr>size := (Fin 300, Fin 300), viewOffset := (Fin 10, Fin 20),
                   pending := [LoadDone None]\<rparr>) (Some (Fin 500, PosInf)) =
     Some (None, newSkin\<lparr>size := (Fin 300, Fin 300), viewOffset := (Fin 10, Fin 20),
                   pending := [LoadDone None]\<rparr>)"
proof -
  have r: "run newSkin (take 1 loadRun) =
     Some (newSkin\<lparr>size := (Fin 300, Fin 300), viewOffset := (Fin 10, Fin 20),
                   pending := [LoadDone None]\<rparr>)"
    by (simp add: sample_defs setSVG_def)
  have n: "noLoadCompletes newSkin (take 1 loadRun)"
    by (simp add: sample_defs setSVG_def completesLoad_def)
  from getTexture_before_first_load[OF r n, of "Some (Fin 500, PosInf)"] r n
  show ?thesis by simp
qed

end
